theory Spec2Isabelle
  imports Main "HOL-Library.Sublist"
begin

section \<open>Strings\<close>

text \<open>
  Strings are lists of characters. The case mapping and the white space of the model
  are those of ASCII: \<open>toLowerCase\<close> maps \<open>A\<close>..\<open>Z\<close> to \<open>a\<close>..\<open>z\<close> and leaves
  every other character alone, \<open>trim\<close> strips tab, line feed, vertical tab, form feed,
  carriage return and space.
\<close>

definition lower_char :: "char \<Rightarrow> char" where
  "lower_char c =
     (case map_of (zip ''ABCDEFGHIJKLMNOPQRSTUVWXYZ'' ''abcdefghijklmnopqrstuvwxyz'') c of
        None \<Rightarrow> c
      | Some l \<Rightarrow> l)"

definition toLowerCase :: "string \<Rightarrow> string" where
  "toLowerCase s = map lower_char s"

definition endsWith :: "string \<Rightarrow> string \<Rightarrow> bool" where
  "endsWith s t = (drop (length s - length t) s = t)"

definition is_space :: "char \<Rightarrow> bool" where
  "is_space c = (c \<in> set [CHR 0x09, CHR 0x0A, CHR 0x0B, CHR 0x0C, CHR 0x0D, CHR 0x20])"

definition trim :: "string \<Rightarrow> string" where
  "trim s = rev (dropWhile is_space (rev (dropWhile is_space s)))"

text \<open>\<open>s.split(" ")[0]\<close>: the text before the first space, all of \<open>s\<close> when it has none.\<close>

definition split_space_first :: "string \<Rightarrow> string" where
  "split_space_first s = takeWhile (\<lambda>c. c \<noteq> CHR '' '') s"

text \<open>
  JavaScript truthiness at the type \<open>string | undefined\<close>: \<open>undefined\<close> and the
  empty string are falsy.
\<close>

definition truthy :: "string option \<Rightarrow> bool" where
  "truthy v = (case v of None \<Rightarrow> False | Some s \<Rightarrow> s \<noteq> [])"

text \<open>\<open>v || undefined\<close>\<close>

definition or_undefined :: "string option \<Rightarrow> string option" where
  "or_undefined v = (if truthy v then v else None)"

section \<open>Data model\<close>

text \<open>
  \<open>Airtable.Attachment\<close>, with the three properties the scripts read. Selectors carry
  the record's initial, since \<open>id\<close> and \<open>filename\<close> occur in several object shapes.
\<close>

record attachment =
  a_id :: string
  a_url :: string
  a_filename :: string

text \<open>
  The fields of a raw record that the scripts read, at the types their casts assert.
  A field the remote table leaves out is \<open>None\<close> (\<open>undefined\<close>).
\<close>

record fieldSet =
  Name :: "string option"
  Authors :: "string option"
  Year :: "string option"
  About :: "attachment list option"
  Showcase :: "attachment list option"
  Archive_file :: "attachment list option"
  Archive_name2 :: "string option"
  KSA_Sampler_transparent :: "attachment list option"
  Created :: "string option"

record rawRecord =
  fieldsOf :: fieldSet

text \<open>\<open>new Date(x)\<close>: a Date object, known by the argument it was built from.\<close>

datatype jsdate = NewDate "string option"

text \<open>
  The object that the normalizer builds, and the one the resolver spreads it into: the
  three asset properties hold attachments before resolution and local paths after it.
\<close>

record 'a themeRecord =
  name :: "string option"
  authors :: "string option"
  year :: "string option"
  about :: "'a option"
  showcase :: "'a option"
  archiveFile :: "attachment option"
  archiveFileName2 :: "string option"
  ksaSampler :: "'a option"
  created :: jsdate

type_synonym normalized = "attachment themeRecord"

record resolved = "string themeRecord" +
  archiveFilename :: "string option"

text \<open>The descriptor \<open>{ id, filepath, filename }\<close> that \<open>downloadAttachment\<close> returns.\<close>

record downloaded =
  d_id :: string
  d_filepath :: string
  d_filename :: string

section \<open>The world outside: network, file system, console\<close>

text \<open>
  What \<open>fetch\<close> resolves to: the status of the answer and its body. The scripts read
  the body (\<open>text()\<close>, \<open>arrayBuffer()\<close>) and never the status.
\<close>

record response =
  status :: nat
  body :: string

text \<open>
  \<open>fetch\<close> maps a URL to the answer of the server, \<open>None\<close> when the request rejects
  (no answer: the network fails). An answer with an error status, such as 404 for a
  file the server does not have, is an answer. \<open>md5\<close> is the digest of \<open>node:crypto\<close>
  in hexadecimal, \<open>stringify\<close> is \<open>JSON.stringify(_, null, 2)\<close>; both are library
  functions and stay parameters.
\<close>

record env =
  fetch :: "string \<Rightarrow> response option"
  md5 :: "string \<Rightarrow> string"
  stringify :: "resolved list \<Rightarrow> string"

text \<open>
  A path holds a file with its content, or something that exists and cannot be read as
  a file. Writes are taken to succeed: the target directories exist and are writable.
\<close>

datatype node = File string | Unreadable

datatype error = FetchFailed string | ReadFailed string

text \<open>The requests made, by call site, with the URL asked for.\<close>

datatype request = Attachment_fetch string | Manifest_fetch string | Archive_fetch string

text \<open>The lines written to the console, one constructor for each template of the source.\<close>

datatype logline =
    Grabbed nat
  | Downloading nat
  | Downloaded string
  | Info_skipped string
  | Info_downloaded string
  | Error_could_not_download string
  | Error_detail error

record state =
  files :: "string \<rightharpoonup> node"
  console :: "logline list"
  fetched :: "request list"

definition fs_exists :: "state \<Rightarrow> string \<Rightarrow> bool" where
  "fs_exists s path = (files s path \<noteq> None)"

definition writeFile :: "string \<Rightarrow> string \<Rightarrow> state \<Rightarrow> state" where
  "writeFile path content s = s\<lparr>files := (files s)(path \<mapsto> File content)\<rparr>"

definition remove :: "string \<Rightarrow> state \<Rightarrow> state" where
  "remove path s = s\<lparr>files := (files s)(path := None)\<rparr>"

definition console_log :: "logline \<Rightarrow> state \<Rightarrow> state" where
  "console_log l s = s\<lparr>console := console s @ [l]\<rparr>"

definition request :: "request \<Rightarrow> state \<Rightarrow> state" where
  "request q s = s\<lparr>fetched := fetched s @ [q]\<rparr>"

section \<open>Record normalizer\<close>

text \<open>\<open>xs?.[0]\<close> on an array that may be undefined or empty.\<close>

definition first_opt :: "'a list option \<Rightarrow> 'a option" where
  "first_opt xs = (case xs of None \<Rightarrow> None | Some [] \<Rightarrow> None | Some (x # _) \<Rightarrow> Some x)"

definition normalizeRecord :: "rawRecord \<Rightarrow> normalized" where
  "normalizeRecord r =
     \<lparr>name = Name (fieldsOf r),
      authors = Authors (fieldsOf r),
      year = Year (fieldsOf r),
      about = first_opt (About (fieldsOf r)),
      showcase = first_opt (Showcase (fieldsOf r)),
      archiveFile = first_opt (Archive_file (fieldsOf r)),
      archiveFileName2 = Archive_name2 (fieldsOf r),
      ksaSampler = first_opt (KSA_Sampler_transparent (fieldsOf r)),
      created = NewDate (Created (fieldsOf r))\<rparr>"

definition normalizedRecords :: "rawRecord list \<Rightarrow> normalized list" where
  "normalizedRecords records = map normalizeRecord records"

section \<open>Attachment fetcher\<close>

definition filename_of :: "string \<Rightarrow> attachment \<Rightarrow> string" where
  "filename_of prefix' a = toLowerCase (prefix' @ a_id a @ ''-'' @ a_filename a)"

definition filepath_of :: "string \<Rightarrow> string \<Rightarrow> attachment \<Rightarrow> string" where
  "filepath_of dir prefix' a = dir @ filename_of prefix' a"

text \<open>
  \<open>dir\<close> is the directory constant of the script: \<open>attachments/\<close> in
  \<open>dump-airtable.ts\<close>, \<open>public/themes/attachments/\<close> in the other script. A failed
  request rejects the promise: \<open>Inl\<close>, with the state reached.
\<close>

definition downloadAttachment ::
  "string \<Rightarrow> env \<Rightarrow> attachment option \<Rightarrow> string \<Rightarrow> state
     \<Rightarrow> (error \<times> state) + (downloaded option \<times> state)" where
  "downloadAttachment dir e attachment prefix' s =
     (case attachment of
        None \<Rightarrow> Inr (None, s)
      | Some a \<Rightarrow>
          (let filename = filename_of prefix' a;
               filepath = dir @ filename
           in if fs_exists s filepath
              then Inr (Some \<lparr>d_id = a_id a, d_filepath = filepath, d_filename = a_filename a\<rparr>, s)
              else (let s1 = request (Attachment_fetch (a_url a)) s
                    in case fetch e (a_url a) of
                         None \<Rightarrow> Inl (FetchFailed (a_url a), s1)
                       | Some response \<Rightarrow>
                           Inr (Some \<lparr>d_id = a_id a, d_filepath = filepath,
                                       d_filename = a_filename a\<rparr>,
                                writeFile filepath (body response)
                                  (console_log (Downloaded filename) s1)))))"

text \<open>\<open>xs.filter((f) => !!f)\<close> on a list of objects that may be undefined.\<close>

primrec filter_defined :: "'a option list \<Rightarrow> 'a list" where
  "filter_defined [] = []"
| "filter_defined (x # xs) = (case x of None \<Rightarrow> filter_defined xs | Some y \<Rightarrow> y # filter_defined xs)"

text \<open>The task run for one record: its three downloads, one after the other.\<close>

definition download_record ::
  "string \<Rightarrow> env \<Rightarrow> normalized \<Rightarrow> state \<Rightarrow> (error \<times> state) + (downloaded list \<times> state)" where
  "download_record dir e r s =
     (case downloadAttachment dir e (about r) ''about-'' s of
        Inl err \<Rightarrow> Inl err
      | Inr (about', s1) \<Rightarrow>
          (case downloadAttachment dir e (ksaSampler r) ''ksa-sampler-'' s1 of
             Inl err \<Rightarrow> Inl err
           | Inr (ksaSampler', s2) \<Rightarrow>
               (case downloadAttachment dir e (showcase r) ''showcase-'' s2 of
                  Inl err \<Rightarrow> Inl err
                | Inr (showcase', s3) \<Rightarrow>
                    Inr (filter_defined [about', ksaSampler', showcase'], s3))))"

text \<open>
  \<open>async.flatMapLimit\<close>: the results of the tasks, concatenated in the order of the
  input; the first task that rejects rejects the whole. The tasks are run one after the
  other, in input order; the ten tasks that the library keeps in flight are not modelled.
\<close>

fun flatMapLimit ::
  "('a \<Rightarrow> state \<Rightarrow> (error \<times> state) + ('b list \<times> state)) \<Rightarrow> 'a list \<Rightarrow> state
     \<Rightarrow> (error \<times> state) + ('b list \<times> state)" where
  "flatMapLimit f [] s = Inr ([], s)"
| "flatMapLimit f (x # xs) s =
     (case f x s of
        Inl err \<Rightarrow> Inl err
      | Inr (ys, s1) \<Rightarrow>
          (case flatMapLimit f xs s1 of
             Inl err \<Rightarrow> Inl err
           | Inr (zs, s2) \<Rightarrow> Inr (ys @ zs, s2)))"

section \<open>Record-to-asset resolver\<close>

text \<open>
  \<open>record.archiveFile?.filename?.endsWith(".sit")\<close> is undefined, hence falsy, when
  the record has no archive file.
\<close>

definition archiveName :: "normalized \<Rightarrow> string option" where
  "archiveName r =
     or_undefined
       (if (case archiveFile r of None \<Rightarrow> False | Some a \<Rightarrow> endsWith (a_filename a) ''.sit'')
        then map_option a_filename (archiveFile r)
        else archiveFileName2 r)"

text \<open>\<open>filePaths.find((f) => f.id === att?.id)?.filepath\<close>\<close>

definition find_filepath :: "downloaded list \<Rightarrow> attachment option \<Rightarrow> string option" where
  "find_filepath filePaths att =
     map_option d_filepath (find (\<lambda>f. Some (d_id f) = map_option a_id att) filePaths)"

definition resolve :: "downloaded list \<Rightarrow> normalized \<Rightarrow> resolved" where
  "resolve filePaths r =
     \<lparr>name = name r,
      authors = authors r,
      year = year r,
      about = find_filepath filePaths (about r),
      showcase = find_filepath filePaths (showcase r),
      archiveFile = None,
      archiveFileName2 = archiveFileName2 r,
      ksaSampler = find_filepath filePaths (ksaSampler r),
      created = created r,
      archiveFilename = archiveName r\<rparr>"

text \<open>
  \<open>Object.values(f).map((v) => !!v)\<close>, in the order of the keys; the Date object is
  truthy whatever it was built from.
\<close>

definition truthy_values :: "resolved \<Rightarrow> bool list" where
  "truthy_values f =
     [truthy (name f), truthy (authors f), truthy (year f), truthy (about f),
      truthy (showcase f), archiveFile f \<noteq> None, truthy (archiveFileName2 f),
      truthy (ksaSampler f), True, truthy (archiveFilename f)]"

text \<open>The first filter: \<open>!!f && Object.values(f).filter((v) => !!v).length\<close>\<close>

definition has_truthy_value :: "resolved \<Rightarrow> bool" where
  "has_truthy_value f = (length (filter (\<lambda>v. v) (truthy_values f)) \<noteq> 0)"

text \<open>The second filter.\<close>

definition passes_validation :: "resolved \<Rightarrow> bool" where
  "passes_validation f =
     (truthy (name f) \<and> (truthy (year f) \<or> truthy (authors f)) \<and> truthy (about f) \<and>
      truthy (showcase f) \<and> truthy (archiveFilename f) \<and> truthy (ksaSampler f))"

definition normalizedRecordsWithFilePaths :: "downloaded list \<Rightarrow> normalized list \<Rightarrow> resolved list" where
  "normalizedRecordsWithFilePaths filePaths ns =
     filter passes_validation (filter has_truthy_value (map (resolve filePaths) ns))"

section \<open>File system reconciler\<close>

definition allFiles :: "resolved list \<Rightarrow> string option list" where
  "allFiles rs = concat (map (\<lambda>r. [about r, ksaSampler r, showcase r]) rs)"

definition filesToDelete :: "string list \<Rightarrow> string option list \<Rightarrow> string list" where
  "filesToDelete existingAttachments all =
     filter (\<lambda>file. Some file \<notin> set all) (filter (\<lambda>f. f \<noteq> []) existingAttachments)"

text \<open>\<open>for (const file of filesToDelete) await fs.remove(file)\<close>\<close>

definition remove_each :: "string list \<Rightarrow> state \<Rightarrow> state" where
  "remove_each paths s = fold remove paths s"

section \<open>Archive mirror\<close>

definition md5Remote :: "string \<Rightarrow> string" where
  "md5Remote md5FileContent = trim (split_space_first md5FileContent)"

text \<open>The read stream fails on a path that holds no readable file; the promise rejects.\<close>

definition getMd5HashOfFile :: "env \<Rightarrow> state \<Rightarrow> string \<Rightarrow> error + string" where
  "getMd5HashOfFile e s path =
     (case files s path of
        Some (File content) \<Rightarrow> Inr (md5 e content)
      | _ \<Rightarrow> Inl (ReadFailed path))"

definition archive_url :: "string \<Rightarrow> string" where
  "archive_url archiveFilename' = ''https://files.macthemes.garden/'' @ archiveFilename'"

definition archive_path :: "string \<Rightarrow> string" where
  "archive_path archiveFilename' = ''archives/'' @ archiveFilename'"

text \<open>The body of the \<open>try\<close> block: \<open>Inl\<close> is what it throws, with the state reached.\<close>

definition downloadArchive_try :: "env \<Rightarrow> string \<Rightarrow> state \<Rightarrow> (error \<times> state) + state" where
  "downloadArchive_try e archiveFilename' s =
     (let md5_url = archive_url archiveFilename' @ ''.md5'';
          s1 = request (Manifest_fetch md5_url) s
      in case fetch e md5_url of
           None \<Rightarrow> Inl (FetchFailed md5_url, s1)
         | Some md5File \<Rightarrow>
             (let md5FileContent = body md5File;
                  filepath = archive_path archiveFilename'
              in case (if fs_exists s1 filepath
                       then (case getMd5HashOfFile e s1 filepath of
                               Inl err \<Rightarrow> Inl err
                             | Inr md5OfExisting \<Rightarrow> Inr (md5OfExisting = md5Remote md5FileContent))
                       else Inr False) of
                   Inl err \<Rightarrow> Inl (err, s1)
                 | Inr True \<Rightarrow> Inr (console_log (Info_skipped archiveFilename') s1)
                 | Inr False \<Rightarrow>
                     (let s2 = request (Archive_fetch (archive_url archiveFilename')) s1
                      in case fetch e (archive_url archiveFilename') of
                           None \<Rightarrow> Inl (FetchFailed (archive_url archiveFilename'), s2)
                         | Some response \<Rightarrow>
                             Inr (console_log (Info_downloaded archiveFilename')
                                   (writeFile (filepath @ ''.md5'') md5FileContent
                                     (writeFile filepath (body response) s2))))))"

text \<open>The \<open>catch\<close> block logs and returns; nothing is thrown further.\<close>

definition downloadArchive :: "env \<Rightarrow> string \<Rightarrow> state \<Rightarrow> state" where
  "downloadArchive e archiveFilename' s =
     (case downloadArchive_try e archiveFilename' s of
        Inr s' \<Rightarrow> s'
      | Inl (err, s') \<Rightarrow>
          console_log (Error_detail err) (console_log (Error_could_not_download archiveFilename') s'))"

text \<open>\<open>compact\<close> of es-toolkit drops the falsy values.\<close>

definition compact :: "string option list \<Rightarrow> string list" where
  "compact vs = map the (filter truthy vs)"

text \<open>\<open>uniq\<close> of es-toolkit goes through a Set: the first occurrence of a value stays.\<close>

definition uniq :: "'a list \<Rightarrow> 'a list" where
  "uniq xs = foldl (\<lambda>acc x. if x \<in> set acc then acc else acc @ [x]) [] xs"

text \<open>
  \<open>async.mapLimit(archives, 10, downloadArchive)\<close>, the operations taken one after the
  other in the order of the list.
\<close>

definition mapLimit_downloadArchive :: "env \<Rightarrow> string list \<Rightarrow> state \<Rightarrow> state" where
  "mapLimit_downloadArchive e archives s = fold (downloadArchive e) archives s"

section \<open>The two scripts\<close>

text \<open>
  What the two scripts share, from the normalizer to the snapshot. \<open>records\<close> is what
  \<open>grabRawRecords\<close> returned and \<open>existingAttachments\<close> what \<open>globSync\<close> listed at the
  start of the run. The scripts differ in the attachments directory and in the path of
  the snapshot.
\<close>

definition sync_records ::
  "string \<Rightarrow> string \<Rightarrow> env \<Rightarrow> rawRecord list \<Rightarrow> string list \<Rightarrow> state
     \<Rightarrow> (error \<times> state) + (resolved list \<times> state)" where
  "sync_records dir snapshot e records existingAttachments s =
     (let ns = normalizedRecords records;
          s1 = console_log (Downloading (length ns * 4)) (console_log (Grabbed (length ns)) s)
      in case flatMapLimit (download_record dir e) ns s1 of
           Inl err \<Rightarrow> Inl err
         | Inr (filePaths, s2) \<Rightarrow>
             (let rs = normalizedRecordsWithFilePaths filePaths ns;
                  s3 = remove_each (filesToDelete existingAttachments (allFiles rs)) s2
              in Inr (rs, writeFile snapshot (stringify e rs) s3)))"

text \<open>\<open>src/dump-airtable.ts\<close>\<close>

definition dump_airtable :: "env \<Rightarrow> rawRecord list \<Rightarrow> string list \<Rightarrow> state \<Rightarrow> (error \<times> state) + state" where
  "dump_airtable e records existingAttachments s =
     (case sync_records ''attachments/'' ''airtable.json'' e records existingAttachments s of
        Inl err \<Rightarrow> Inl err
      | Inr (rs, s4) \<Rightarrow>
          Inr (mapLimit_downloadArchive e (uniq (compact (map archiveFilename rs))) s4))"

text \<open>\<open>src/unnamed/part_000\<close>: no archive mirror.\<close>

definition part_000 :: "env \<Rightarrow> rawRecord list \<Rightarrow> string list \<Rightarrow> state \<Rightarrow> (error \<times> state) + state" where
  "part_000 e records existingAttachments s =
     (case sync_records ''public/themes/attachments/'' ''src/themes/airtable.json'' e records
             existingAttachments s of
        Inl err \<Rightarrow> Inl err
      | Inr (rs, s4) \<Rightarrow> Inr s4)"

section \<open>Notions used by the properties\<close>

text \<open>The descriptor of an attachment under a role prefix, and those of a whole run.\<close>

definition descriptor :: "string \<Rightarrow> string \<Rightarrow> attachment \<Rightarrow> downloaded" where
  "descriptor dir prefix' a =
     \<lparr>d_id = a_id a, d_filepath = filepath_of dir prefix' a, d_filename = a_filename a\<rparr>"

definition record_descriptors :: "string \<Rightarrow> normalized \<Rightarrow> downloaded list" where
  "record_descriptors dir r =
     filter_defined
       [map_option (descriptor dir ''about-'') (about r),
        map_option (descriptor dir ''ksa-sampler-'') (ksaSampler r),
        map_option (descriptor dir ''showcase-'') (showcase r)]"

definition descriptors :: "string \<Rightarrow> normalized list \<Rightarrow> downloaded list" where
  "descriptors dir ns = concat (map (record_descriptors dir) ns)"

text \<open>
  A warm directory: the target path of every attachment of every record exists.
\<close>

definition on_disk :: "string \<Rightarrow> state \<Rightarrow> string \<Rightarrow> attachment option \<Rightarrow> bool" where
  "on_disk dir s prefix' att =
     (case att of None \<Rightarrow> True | Some a \<Rightarrow> fs_exists s (filepath_of dir prefix' a))"

definition warm_record :: "string \<Rightarrow> state \<Rightarrow> normalized \<Rightarrow> bool" where
  "warm_record dir s r =
     (on_disk dir s ''about-'' (about r) \<and> on_disk dir s ''ksa-sampler-'' (ksaSampler r) \<and>
      on_disk dir s ''showcase-'' (showcase r))"

definition warm :: "string \<Rightarrow> normalized list \<Rightarrow> state \<Rightarrow> bool" where
  "warm dir ns s = list_all (warm_record dir s) ns"

text \<open>The asset paths that a list of resolved records refers to.\<close>

definition referenced :: "resolved list \<Rightarrow> string set" where
  "referenced rs =
     {p. \<exists>r\<in>set rs. about r = Some p \<or> ksaSampler r = Some p \<or> showcase r = Some p}"


text \<open>
  A field is present when it is not \<open>undefined\<close>. The specification calls a
  resolved record valid when its name is present, its year or its authors are, and its
  about, showcase, ksaSampler and archiveFilename are.
\<close>

definition present :: "'a option \<Rightarrow> bool" where
  "present v = (v \<noteq> None)"

definition valid_as_stated :: "resolved \<Rightarrow> bool" where
  "valid_as_stated f =
     (present (name f) \<and> (present (year f) \<or> present (authors f)) \<and> present (about f) \<and>
      present (showcase f) \<and> present (ksaSampler f) \<and> present (archiveFilename f))"

text \<open>
  The same with a name, and a year or authors, that are moreover not the empty string.
\<close>

definition nonempty :: "string option \<Rightarrow> bool" where
  "nonempty v = (v \<noteq> None \<and> v \<noteq> Some [])"

definition valid :: "resolved \<Rightarrow> bool" where
  "valid f =
     (nonempty (name f) \<and> (nonempty (year f) \<or> nonempty (authors f)) \<and> present (about f) \<and>
      present (showcase f) \<and> present (ksaSampler f) \<and> present (archiveFilename f))"

section \<open>Example data\<close>

definition rec123 :: attachment where
  "rec123 = \<lparr>a_id = ''rec123'', a_url = ''https://dl.example/about'', a_filename = ''Foo.PNG''\<rparr>"


definition rec124 :: attachment where
  "rec124 = \<lparr>a_id = ''rec124'', a_url = ''https://dl.example/ksa'', a_filename = ''Ksa.png''\<rparr>"

definition rec125 :: attachment where
  "rec125 = \<lparr>a_id = ''rec125'', a_url = ''https://dl.example/showcase'', a_filename = ''Show.png''\<rparr>"

definition theme_sit :: attachment where
  "theme_sit = \<lparr>a_id = ''rec126'', a_url = ''https://dl.example/sit'', a_filename = ''Theme.sit''\<rparr>"

definition theme_zip :: attachment where
  "theme_zip = \<lparr>a_id = ''rec127'', a_url = ''https://dl.example/zip'', a_filename = ''Theme.zip''\<rparr>"

definition theme :: rawRecord where
  "theme =
     \<lparr>fieldsOf =
        \<lparr>Name = Some ''Aqua'', Authors = Some ''Jane'', Year = None, About = Some [rec123],
         Showcase = Some [rec125], Archive_file = Some [theme_sit],
         Archive_name2 = Some ''theme-v2.zip'', KSA_Sampler_transparent = Some [rec124],
         Created = Some ''2024-01-01''\<rparr>\<rparr>"

definition zipped :: rawRecord where
  "zipped = \<lparr>fieldsOf = (fieldsOf theme)\<lparr>Archive_file := Some [theme_zip]\<rparr>\<rparr>"

definition nameless :: rawRecord where
  "nameless = \<lparr>fieldsOf = (fieldsOf theme)\<lparr>Name := None\<rparr>\<rparr>"

definition unnamed :: rawRecord where
  "unnamed = \<lparr>fieldsOf = (fieldsOf theme)\<lparr>Name := Some []\<rparr>\<rparr>"

definition uncredited :: rawRecord where
  "uncredited = \<lparr>fieldsOf = (fieldsOf theme)\<lparr>Authors := None\<rparr>\<rparr>"

definition ok :: "string \<Rightarrow> response" where
  "ok content = \<lparr>status = 200, body = content\<rparr>"

definition not_found :: response where
  "not_found = \<lparr>status = 404, body = ''Not Found''\<rparr>"

text \<open>
  A server that answers the six URLs of the example and rejects every other request: it
  has the manifest of \<open>Lost.sit\<close> and does not answer for the archive itself. The
  digest is a stand-in that keeps its input, and the serializer writes the names.
\<close>

definition server :: env where
  "server =
     \<lparr>fetch = map_of
        [(''https://dl.example/about'', ok ''about''),
         (''https://dl.example/ksa'', ok ''ksa''),
         (''https://dl.example/showcase'', ok ''showcase''),
         (''https://files.macthemes.garden/Theme.sit.md5'', ok ''0cc1  Theme.sit''),
         (''https://files.macthemes.garden/Theme.sit'', ok ''0cc1''),
         (''https://files.macthemes.garden/Lost.sit.md5'', ok ''ffff  Lost.sit'')],
      md5 = (\<lambda>content. content),
      stringify = (\<lambda>rs. concat (map (\<lambda>r. case name r of None \<Rightarrow> [] | Some n \<Rightarrow> n) rs))\<rparr>"

text \<open>A server that has the archive and not its manifest: it answers 404 for the rest.\<close>

definition no_manifest :: env where
  "no_manifest =
     \<lparr>fetch = (\<lambda>url. if url = ''https://files.macthemes.garden/Theme.sit'' then Some (ok ''0cc1'')
                      else Some not_found),
      md5 = (\<lambda>content. content),
      stringify = (\<lambda>rs. [])\<rparr>"


definition disk :: "(string \<times> node) list \<Rightarrow> state" where
  "disk entries = \<lparr>files = map_of entries, console = [], fetched = []\<rparr>"

definition ac_record :: resolved where
  "ac_record =
     \<lparr>name = Some ''Aqua'', authors = Some ''Jane'', year = None, about = Some ''A.png'',
      showcase = Some ''A.png'', archiveFile = None, archiveFileName2 = None,
      ksaSampler = Some ''C.png'', created = NewDate None, archiveFilename = Some ''Theme.sit''\<rparr>"

definition blank :: rawRecord where
  "blank =
     \<lparr>fieldsOf =
        \<lparr>Name = None, Authors = None, Year = None, About = None, Showcase = None,
         Archive_file = None, Archive_name2 = None, KSA_Sampler_transparent = None,
         Created = None\<rparr>\<rparr>"

text \<open>A listing of the site's directory, and a disk that holds the file it lists.\<close>

definition listing :: "string list" where
  "listing = [''public/themes/attachments/about-rec123-foo.png'']"

definition stale :: state where
  "stale = disk [(''public/themes/attachments/about-rec123-foo.png'', File ''old'')]"

section \<open>Lemmas\<close>

subsection \<open>File system, console and requests\<close>

lemma files_console_log [simp]: "files (console_log l s) = files s"
  by (simp add: console_log_def)

lemma files_request [simp]: "files (request q s) = files s"
  by (simp add: request_def)

lemma fetched_console_log [simp]: "fetched (console_log l s) = fetched s"
  by (simp add: console_log_def)

lemma fetched_writeFile [simp]: "fetched (writeFile p c s) = fetched s"
  by (simp add: writeFile_def)

lemma fetched_remove [simp]: "fetched (remove p s) = fetched s"
  by (simp add: remove_def)

lemma console_request [simp]: "console (request q s) = console s"
  by (simp add: request_def)

lemma console_writeFile [simp]: "console (writeFile p c s) = console s"
  by (simp add: writeFile_def)

lemma console_remove [simp]: "console (remove p s) = console s"
  by (simp add: remove_def)

lemma files_writeFile [simp]: "files (writeFile p c s) = (files s)(p \<mapsto> File c)"
  by (simp add: writeFile_def)

lemma files_remove [simp]: "files (remove p s) = (files s)(p := None)"
  by (simp add: remove_def)

lemma fetched_request [simp]: "fetched (request q s) = fetched s @ [q]"
  by (simp add: request_def)

lemma console_console_log [simp]: "console (console_log l s) = console s @ [l]"
  by (simp add: console_log_def)

lemma fs_exists_console_log [simp]: "fs_exists (console_log l s) p = fs_exists s p"
  by (simp add: fs_exists_def)

lemma fs_exists_request [simp]: "fs_exists (request q s) p = fs_exists s p"
  by (simp add: fs_exists_def)

lemma files_remove_each:
  "files (remove_each paths s) = (\<lambda>p. if p \<in> set paths then None else files s p)"
proof (induction paths arbitrary: s)
  case Nil
  show ?case by (simp add: remove_each_def)
next
  case (Cons q paths)
  have "remove_each (q # paths) s = remove_each paths (remove q s)"
    by (simp add: remove_each_def)
  then show ?case
    using Cons.IH [of "remove q s"] by (auto simp: fun_eq_iff)
qed

lemma fetched_remove_each [simp]: "fetched (remove_each paths s) = fetched s"
  by (induction paths arbitrary: s) (simp_all add: remove_each_def)

lemma console_remove_each [simp]: "console (remove_each paths s) = console s"
  by (induction paths arbitrary: s) (simp_all add: remove_each_def)

subsection \<open>Attachment fetcher\<close>

lemma downloadAttachment_result:
  assumes "downloadAttachment dir e att prefix' s = Inr (d, s')"
  shows "d = map_option (descriptor dir prefix') att"
  using assms
  by (auto simp: downloadAttachment_def descriptor_def filepath_of_def Let_def
      split: if_splits option.splits)

lemma download_record_result:
  assumes "download_record dir e r s = Inr (ds, s')"
  shows "ds = record_descriptors dir r"
  using assms
  by (auto simp: download_record_def record_descriptors_def
      split: sum.splits dest!: downloadAttachment_result)

lemma flatMapLimit_result:
  assumes "flatMapLimit (download_record dir e) ns s = Inr (fps, s')"
  shows "fps = descriptors dir ns"
  using assms
proof (induction ns arbitrary: s fps s')
  case Nil
  then show ?case by (simp add: descriptors_def)
next
  case (Cons n ns)
  from Cons.prems obtain ys s1 zs where
    first: "download_record dir e n s = Inr (ys, s1)" and
    rest: "flatMapLimit (download_record dir e) ns s1 = Inr (zs, s')" and
    fps: "fps = ys @ zs"
    by (auto split: sum.splits)
  from first have "ys = record_descriptors dir n" by (rule download_record_result)
  moreover from rest have "zs = descriptors dir ns" by (rule Cons.IH)
  ultimately show ?case using fps by (simp add: descriptors_def)
qed




lemma on_disk_console_log [simp]: "on_disk dir (console_log l s) prefix' att = on_disk dir s prefix' att"
  by (cases att) (simp_all add: on_disk_def)

lemma warm_record_console_log [simp]: "warm_record dir (console_log l s) r = warm_record dir s r"
  by (simp add: warm_record_def)

lemma warm_console_log [simp]: "warm dir ns (console_log l s) = warm dir ns s"
  by (simp add: warm_def list_all_iff)

subsection \<open>Resolver\<close>

lemma created_truthy: "has_truthy_value f"
  by (simp add: has_truthy_value_def truthy_values_def)

lemma normalizedRecordsWithFilePaths_filter:
  "normalizedRecordsWithFilePaths filePaths ns = filter passes_validation (map (resolve filePaths) ns)"
proof -
  have "filter has_truthy_value (map (resolve filePaths) ns) = map (resolve filePaths) ns"
    by (simp add: created_truthy)
  then show ?thesis
    by (simp add: normalizedRecordsWithFilePaths_def)
qed

lemma endsWith_nonempty: "endsWith s ''.sit'' \<Longrightarrow> s \<noteq> []"
  by (auto simp: endsWith_def)

lemma archiveName_cases:
  "archiveName r =
     (case archiveFile r of
        None \<Rightarrow> or_undefined (archiveFileName2 r)
      | Some a \<Rightarrow>
          if endsWith (a_filename a) ''.sit'' then Some (a_filename a)
          else or_undefined (archiveFileName2 r))"
  by (auto simp: archiveName_def or_undefined_def truthy_def dest: endsWith_nonempty split: option.splits)

lemma find_filepath_None [simp]: "find_filepath filePaths None = None"
  by (induction filePaths) (simp_all add: find_filepath_def)

lemma find_filepath_Some:
  assumes "find_filepath filePaths att = Some p"
  shows "\<exists>d\<in>set filePaths. p = d_filepath d"
  using assms
  by (auto simp: find_filepath_def find_Some_iff)

lemma descriptors_filepath:
  assumes "d \<in> set (descriptors dir ns)"
  shows "prefix dir (d_filepath d)"
  using assms
  by (auto simp: descriptors_def record_descriptors_def descriptor_def filepath_of_def
      split: option.splits)

lemma allFiles_referenced: "Some p \<in> set (allFiles rs) \<longleftrightarrow> p \<in> referenced rs"
proof -
  have "Some p \<in> set (allFiles rs) \<longleftrightarrow>
          (\<exists>r\<in>set rs. Some p = about r \<or> Some p = ksaSampler r \<or> Some p = showcase r)"
    by (auto simp: allFiles_def)
  also have "\<dots> \<longleftrightarrow> p \<in> referenced rs"
    unfolding referenced_def mem_Collect_eq by metis
  finally show ?thesis .
qed

lemma referenced_prefix:
  assumes "p \<in> referenced (normalizedRecordsWithFilePaths (descriptors dir ns) ns)"
  shows "prefix dir p"
proof -
  from assms obtain n where "n \<in> set ns" and
    "find_filepath (descriptors dir ns) (about n) = Some p \<or>
     find_filepath (descriptors dir ns) (ksaSampler n) = Some p \<or>
     find_filepath (descriptors dir ns) (showcase n) = Some p"
    by (auto simp: referenced_def normalizedRecordsWithFilePaths_filter resolve_def)
  then obtain d where "d \<in> set (descriptors dir ns)" and "p = d_filepath d"
    using find_filepath_Some by blast
  then show ?thesis
    by (simp add: descriptors_filepath)
qed

lemma dirs_apart:
  assumes "prefix ''attachments/'' p" and "prefix ''public/themes/attachments/'' q"
  shows "p \<noteq> q"
  using assms by (auto simp: prefix_def)

subsection \<open>Reconciler\<close>

lemma set_filesToDelete:
  "set (filesToDelete existingAttachments all) =
     (set existingAttachments - {[]}) - {file. Some file \<in> set all}"
  by (auto simp: filesToDelete_def)

lemma filesToDelete_all:
  assumes "\<forall>file\<in>set existingAttachments. file \<noteq> [] \<and> Some file \<notin> set all"
  shows "filesToDelete existingAttachments all = existingAttachments"
  using assms by (simp add: filesToDelete_def)



subsection \<open>Archive mirror\<close>

lemma archive_path_inject [simp]: "archive_path a = archive_path b \<longleftrightarrow> a = b"
  by (simp add: archive_path_def)

lemma archive_path_md5 [simp]: "archive_path a @ ''.md5'' = archive_path b \<longleftrightarrow> a @ ''.md5'' = b"
  by (simp add: archive_path_def)

lemma downloadArchive_try_Inl:
  assumes "downloadArchive_try e a s = Inl (err, s1)"
  shows "files s1 = files s \<and> console s1 = console s"
  using assms
  by (auto simp: downloadArchive_try_def Let_def split: option.splits sum.splits bool.splits if_splits)

lemma downloadArchive_skip:
  assumes "fetch e (archive_url a @ ''.md5'') = Some m"
    and "files s (archive_path a) = Some (File c)"
    and "md5 e c = md5Remote (body m)"
  shows "downloadArchive e a s =
           console_log (Info_skipped a) (request (Manifest_fetch (archive_url a @ ''.md5'')) s)"
  using assms
  by (simp add: downloadArchive_def downloadArchive_try_def Let_def fs_exists_def getMd5HashOfFile_def)

lemma downloadArchive_download:
  assumes "fetch e (archive_url a @ ''.md5'') = Some m"
    and "files s (archive_path a) = None \<or>
         (\<exists>c. files s (archive_path a) = Some (File c) \<and> md5 e c \<noteq> md5Remote (body m))"
    and "fetch e (archive_url a) = Some r"
  shows "downloadArchive e a s =
           console_log (Info_downloaded a)
             (writeFile (archive_path a @ ''.md5'') (body m)
               (writeFile (archive_path a) (body r)
                 (request (Archive_fetch (archive_url a))
                   (request (Manifest_fetch (archive_url a @ ''.md5'')) s))))"
  using assms
  by (auto simp: downloadArchive_def downloadArchive_try_def Let_def fs_exists_def getMd5HashOfFile_def)

lemma downloadArchive_files_other:
  assumes "p \<noteq> archive_path a" and "p \<noteq> archive_path a @ ''.md5''"
  shows "files (downloadArchive e a s) p = files s p"
  using assms
  by (auto simp: downloadArchive_def downloadArchive_try_def Let_def
      split: option.splits sum.splits bool.splits if_splits)

lemma mapLimit_downloadArchive_Cons [simp]:
  "mapLimit_downloadArchive e (a # archives) s =
     mapLimit_downloadArchive e archives (downloadArchive e a s)"
  by (simp add: mapLimit_downloadArchive_def)

lemma mapLimit_downloadArchive_Nil [simp]: "mapLimit_downloadArchive e [] s = s"
  by (simp add: mapLimit_downloadArchive_def)

lemma mapLimit_downloadArchive_files_other:
  assumes "\<forall>a\<in>set archives. p \<noteq> archive_path a \<and> p \<noteq> archive_path a @ ''.md5''"
  shows "files (mapLimit_downloadArchive e archives s) p = files s p"
  using assms
  by (induction archives arbitrary: s) (simp_all add: downloadArchive_files_other)

lemma downloadArchive_files:
  "files (downloadArchive e a s) = files s \<or>
   (\<exists>m r. fetch e (archive_url a @ ''.md5'') = Some m \<and> fetch e (archive_url a) = Some r \<and>
      files (downloadArchive e a s) =
        (files s)(archive_path a \<mapsto> File (body r), archive_path a @ ''.md5'' \<mapsto> File (body m)))"
  by (auto simp: downloadArchive_def downloadArchive_try_def Let_def
      split: option.splits sum.splits bool.splits if_splits)

lemma downloadArchive_other_archive:
  assumes "a \<noteq> b" and "a @ ''.md5'' \<noteq> b"
  shows "files (downloadArchive e a s) (archive_path b) = files s (archive_path b)"
proof (rule downloadArchive_files_other)
  show "archive_path b \<noteq> archive_path a"
    using assms(1) by auto
  show "archive_path b \<noteq> archive_path a @ ''.md5''"
    using assms(2) by (auto simp: archive_path_def)
qed

lemma downloadArchive_keeps_mirrored:
  assumes "files s (archive_path b) = Some (File (body r))"
    and "fetch e (archive_url b) = Some r"
    and "a @ ''.md5'' \<noteq> b"
  shows "files (downloadArchive e a s) (archive_path b) = Some (File (body r))"
proof (cases "a = b")
  case False
  with assms(1,3) show ?thesis
    by (simp add: downloadArchive_other_archive)
next
  case True
  have "archive_path b @ ''.md5'' \<noteq> archive_path b"
    by simp
  with assms(1,2) show ?thesis
    using downloadArchive_files [of e b s] unfolding True by auto
qed

lemma mapLimit_keeps_mirrored:
  assumes "files s (archive_path b) = Some (File (body r))"
    and "fetch e (archive_url b) = Some r"
    and "\<forall>a\<in>set archives. a @ ''.md5'' \<noteq> b"
  shows "files (mapLimit_downloadArchive e archives s) (archive_path b) = Some (File (body r))"
  using assms
  by (induction archives arbitrary: s) (simp_all add: downloadArchive_keeps_mirrored)

lemma mapLimit_mirrors:
  assumes "b \<in> set archives"
    and "files s (archive_path b) = None"
    and "fetch e (archive_url b @ ''.md5'') = Some m"
    and "fetch e (archive_url b) = Some r"
    and "\<forall>a\<in>set archives. a @ ''.md5'' \<noteq> b"
  shows "files (mapLimit_downloadArchive e archives s) (archive_path b) = Some (File (body r))"
  using assms
proof (induction archives arbitrary: s)
  case Nil
  then show ?case by simp
next
  case (Cons a archives)
  show ?case
  proof (cases "a = b")
    case True
    have "files (downloadArchive e b s) (archive_path b) = Some (File (body r))"
      using Cons.prems(2,3,4) by (simp add: downloadArchive_download archive_path_def)
    then show ?thesis
      using True Cons.prems(4,5) by (simp add: mapLimit_keeps_mirrored)
  next
    case False
    with Cons.prems have "files (downloadArchive e a s) (archive_path b) = None"
      by (simp add: downloadArchive_other_archive)
    with False Cons.prems show ?thesis
      by (simp add: Cons.IH)
  qed
qed

subsection \<open>Strings and the shared part of the scripts\<close>








lemma sync_records_Inr:
  assumes "sync_records dir snapshot e records existingAttachments s = Inr (rs, s')"
  defines "ns \<equiv> normalizedRecords records"
  shows "rs = normalizedRecordsWithFilePaths (descriptors dir ns) ns"
    and "\<exists>s2. s' = writeFile snapshot (stringify e rs)
                   (remove_each (filesToDelete existingAttachments (allFiles rs)) s2)"
proof -
  let ?s1 = "console_log (Downloading (length ns * 4)) (console_log (Grabbed (length ns)) s)"
  from assms(1) obtain filePaths s2 where
    stage: "flatMapLimit (download_record dir e) ns ?s1 = Inr (filePaths, s2)" and
    rs: "rs = normalizedRecordsWithFilePaths filePaths ns" and
    s': "s' = writeFile snapshot (stringify e rs)
               (remove_each (filesToDelete existingAttachments (allFiles rs)) s2)"
    unfolding sync_records_def ns_def Let_def by (auto split: sum.splits)
  from stage have "filePaths = descriptors dir ns"
    by (rule flatMapLimit_result)
  with rs show "rs = normalizedRecordsWithFilePaths (descriptors dir ns) ns"
    by simp
  from s' show "\<exists>s2. s' = writeFile snapshot (stringify e rs)
                   (remove_each (filesToDelete existingAttachments (allFiles rs)) s2)"
    by blast
qed

lemma sync_records_snapshot:
  assumes "sync_records dir snapshot e records existingAttachments s = Inr (rs, s')"
  shows "files s' snapshot = Some (File (stringify e rs))"
  using sync_records_Inr(2) [OF assms] by auto


subsection \<open>Validity\<close>

lemma filepath_of_nonempty: "filepath_of dir prefix' a \<noteq> []"
  by (simp add: filepath_of_def filename_of_def toLowerCase_def)

lemma find_filepath_descriptors_nonempty:
  "find_filepath (descriptors dir ms) att \<noteq> Some []"
proof
  assume "find_filepath (descriptors dir ms) att = Some []"
  then obtain d where "d \<in> set (descriptors dir ms)" and "d_filepath d = []"
    using find_filepath_Some by fastforce
  then show False
    by (auto simp: descriptors_def record_descriptors_def descriptor_def filepath_of_nonempty
        split: option.splits)
qed

lemma or_undefined_nonempty: "or_undefined v \<noteq> Some []"
  by (cases v) (simp_all add: or_undefined_def truthy_def)

lemma archiveName_nonempty: "archiveName r \<noteq> Some []"
  unfolding archiveName_def by (rule or_undefined_nonempty)

lemma truthy_nonempty: "truthy v \<longleftrightarrow> nonempty v"
  by (cases v) (simp_all add: truthy_def nonempty_def)

lemma truthy_present: "v \<noteq> Some [] \<Longrightarrow> truthy v \<longleftrightarrow> present v"
  by (cases v) (simp_all add: truthy_def present_def)

lemma valid_passes_validation:
  "valid (resolve (descriptors dir ms) n) \<longleftrightarrow> passes_validation (resolve (descriptors dir ms) n)"
proof -
  let ?f = "resolve (descriptors dir ms) n"
  have "truthy (about ?f) \<longleftrightarrow> present (about ?f)"
    and "truthy (showcase ?f) \<longleftrightarrow> present (showcase ?f)"
    and "truthy (ksaSampler ?f) \<longleftrightarrow> present (ksaSampler ?f)"
    and "truthy (archiveFilename ?f) \<longleftrightarrow> present (archiveFilename ?f)"
    by (simp_all add: resolve_def truthy_present find_filepath_descriptors_nonempty
        archiveName_nonempty)
  then show ?thesis
    by (auto simp: valid_def passes_validation_def truthy_nonempty)
qed

subsection \<open>Paths of the two directories\<close>

lemma not_archive_path:
  assumes "prefix ''public/themes/attachments/'' p"
  shows "p \<noteq> archive_path a" and "p \<noteq> archive_path a @ ''.md5''" and "p \<noteq> ''airtable.json''"
    and "p \<noteq> []"
  using assms by (auto simp: prefix_def archive_path_def)

subsection \<open>What a run leaves on disk\<close>














subsection \<open>What a mirror operation throws\<close>

lemma downloadArchive_caught:
  assumes "downloadArchive_try e a s = Inl (err, s1)"
  shows "files (downloadArchive e a s) = files s"
    and "console (downloadArchive e a s) =
           console s @ [Error_could_not_download a, Error_detail err]"
  using assms downloadArchive_try_Inl [OF assms]
  by (simp_all add: downloadArchive_def)

lemma downloadArchive_try_throws:
  "fetch e (archive_url a @ ''.md5'') = None \<Longrightarrow>
     downloadArchive_try e a s =
       Inl (FetchFailed (archive_url a @ ''.md5''),
            request (Manifest_fetch (archive_url a @ ''.md5'')) s)"
  "fetch e (archive_url a @ ''.md5'') = Some m \<Longrightarrow> files s (archive_path a) = Some Unreadable \<Longrightarrow>
     downloadArchive_try e a s =
       Inl (ReadFailed (archive_path a), request (Manifest_fetch (archive_url a @ ''.md5'')) s)"
  "fetch e (archive_url a @ ''.md5'') = Some m \<Longrightarrow> files s (archive_path a) = None \<Longrightarrow>
   fetch e (archive_url a) = None \<Longrightarrow>
     downloadArchive_try e a s =
       Inl (FetchFailed (archive_url a),
            request (Archive_fetch (archive_url a))
              (request (Manifest_fetch (archive_url a @ ''.md5'')) s))"
  by (simp_all add: downloadArchive_try_def Let_def fs_exists_def getMd5HashOfFile_def)

lemma snapshot_not_archive:
  "''airtable.json'' \<noteq> archive_path a" "''airtable.json'' \<noteq> archive_path a @ ''.md5''"
  by (simp_all add: archive_path_def)

subsection \<open>The script without the archive mirror\<close>

lemma part_000_snapshot:
  assumes "part_000 e records existingAttachments s = Inr s'"
  shows "\<exists>rs. sync_records ''public/themes/attachments/'' ''src/themes/airtable.json'' e records
                existingAttachments s = Inr (rs, s') \<and>
              files s' ''src/themes/airtable.json'' = Some (File (stringify e rs))"
proof -
  from assms obtain rs where
    sync: "sync_records ''public/themes/attachments/'' ''src/themes/airtable.json'' e records
             existingAttachments s = Inr (rs, s')"
    by (auto simp: part_000_def split: sum.splits)
  from sync sync_records_snapshot [OF sync] show ?thesis
    by blast
qed

section \<open>Properties\<close>

text \<open>
  C1 (amended). The records of the snapshot are the resolved records that are valid, in
  the order of the input, where valid asks for a name that is present and not the empty
  string, a year or authors that are present and not the empty string, and an about,
  showcase, ksaSampler and archiveFilename that are present. A run that reaches the
  snapshot writes exactly these records to it, whole. A raw record without Name, or
  without both Year and Author(s), has no record in the snapshot.
\<close>

theorem snapshot_holds_valid_records:
  "normalizedRecordsWithFilePaths (descriptors dir ms) ns =
     filter valid (map (resolve (descriptors dir ms)) ns) \<and>
   (f \<in> set (normalizedRecordsWithFilePaths (descriptors dir ms) ns) \<longleftrightarrow>
      f \<in> resolve (descriptors dir ms) ` set ns \<and> valid f) \<and>
   (sync_records dir snapshot e records existingAttachments s = Inr (rs, s') \<longrightarrow>
      files s' snapshot = Some (File (stringify e rs)) \<and>
      rs = filter valid
             (map (resolve (descriptors dir (normalizedRecords records)))
               (normalizedRecords records))) \<and>
   (Name (fieldsOf r) = None \<or> (Year (fieldsOf r) = None \<and> Authors (fieldsOf r) = None) \<longrightarrow>
      resolve filePaths (normalizeRecord r) \<notin> set (normalizedRecordsWithFilePaths filePaths ns))"
proof (intro conjI impI)
  show filtered: "normalizedRecordsWithFilePaths (descriptors dir ms) ns =
      filter valid (map (resolve (descriptors dir ms)) ns)" for ms ns
    unfolding normalizedRecordsWithFilePaths_filter filter_map
    by (simp add: comp_def valid_passes_validation)
  show "f \<in> set (normalizedRecordsWithFilePaths (descriptors dir ms) ns) \<longleftrightarrow>
      f \<in> resolve (descriptors dir ms) ` set ns \<and> valid f"
    unfolding filtered by auto
  { assume run: "sync_records dir snapshot e records existingAttachments s = Inr (rs, s')"
    then show "files s' snapshot = Some (File (stringify e rs))"
      by (rule sync_records_snapshot)
    from sync_records_Inr(1) [OF run]
    show "rs = filter valid
             (map (resolve (descriptors dir (normalizedRecords records)))
               (normalizedRecords records))"
      by (simp add: filtered) }
  { assume "Name (fieldsOf r) = None \<or> (Year (fieldsOf r) = None \<and> Authors (fieldsOf r) = None)"
    then have "\<not> passes_validation (resolve filePaths (normalizeRecord r))"
      by (auto simp: passes_validation_def truthy_def resolve_def normalizeRecord_def)
    then show "resolve filePaths (normalizeRecord r)
        \<notin> set (normalizedRecordsWithFilePaths filePaths ns)"
      by (simp add: normalizedRecordsWithFilePaths_filter) }
qed

theorem snapshot_holds_valid_records_witness:
  "files (snd (projr (sync_records ''attachments/'' ''airtable.json'' server
      [theme, nameless, uncredited] listing stale))) ''airtable.json'' = Some (File ''Aqua'') \<and>
   length (fst (projr (sync_records ''attachments/'' ''airtable.json'' server
      [theme, nameless, uncredited] listing stale))) = 1 \<and>
   resolve (descriptors ''attachments/'' (normalizedRecords [theme, nameless, uncredited]))
       (normalizeRecord nameless)
     \<notin> set (normalizedRecordsWithFilePaths
         (descriptors ''attachments/'' (normalizedRecords [theme, nameless, uncredited]))
         (normalizedRecords [theme, nameless, uncredited]))"
proof -
  let ?run = "sync_records ''attachments/'' ''airtable.json'' server
      [theme, nameless, uncredited] listing stale"
  have "\<not> isl ?run"
    by code_simp
  then have run: "?run = Inr (fst (projr ?run), snd (projr ?run))"
    by (cases ?run) simp_all
  have nameless: "Name (fieldsOf nameless) = None"
    by (simp add: nameless_def)
  have one: "length (fst (projr ?run)) = 1"
    by code_simp
  have content: "stringify server (fst (projr ?run)) = ''Aqua''"
    by code_simp
  note claim = snapshot_holds_valid_records [where
      filePaths = "descriptors ''attachments/'' (normalizedRecords [theme, nameless, uncredited])"
      and ns = "normalizedRecords [theme, nameless, uncredited]" and dir = "''attachments/''"
      and snapshot = "''airtable.json''" and e = server and records = "[theme, nameless, uncredited]"
      and existingAttachments = listing and s = stale and rs = "fst (projr ?run)"
      and s' = "snd (projr ?run)" and r = nameless]
  from claim [THEN conjunct2, THEN conjunct2, THEN conjunct1, THEN mp, OF run, THEN conjunct1]
  have written: "files (snd (projr ?run)) ''airtable.json'' = Some (File ''Aqua'')"
    unfolding content .
  from nameless claim [THEN conjunct2, THEN conjunct2, THEN conjunct2, THEN mp]
  have dropped: "resolve (descriptors ''attachments/'' (normalizedRecords [theme, nameless, uncredited]))
       (normalizeRecord nameless)
     \<notin> set (normalizedRecordsWithFilePaths
         (descriptors ''attachments/'' (normalizedRecords [theme, nameless, uncredited]))
         (normalizedRecords [theme, nameless, uncredited]))"
    by blast
  from written one dropped show ?thesis
    by blast
qed

text \<open>
  A record whose Name is the empty string passes the invariant as the specification
  words it, and is not in the snapshot.
\<close>

theorem snapshot_empty_name_counterexample:
  "valid_as_stated
     (resolve (descriptors ''attachments/'' (normalizedRecords [unnamed])) (normalizeRecord unnamed)) \<and>
   normalizedRecordsWithFilePaths (descriptors ''attachments/'' (normalizedRecords [unnamed]))
     (normalizedRecords [unnamed]) = [] \<and>
   fst (projr (sync_records ''attachments/'' ''airtable.json'' server [unnamed] [] (disk []))) = [] \<and>
   files (snd (projr (sync_records ''attachments/'' ''airtable.json'' server [unnamed] [] (disk []))))
     ''airtable.json'' = Some (File [])"
  by code_simp




text \<open>
  C3. The reconciler removes the listed paths that no record of the snapshot refers to
  as its about, ksaSampler or showcase file, and nothing else: the files after it are
  the files before it without that set difference. The listing is one of paths, none of
  them empty.
\<close>

theorem reconciler_deletes_difference:
  assumes "[] \<notin> set existingAttachments"
  shows "set (filesToDelete existingAttachments (allFiles rs)) =
           set existingAttachments - referenced rs \<and>
         files (remove_each (filesToDelete existingAttachments (allFiles rs)) s) =
           (\<lambda>p. if p \<in> set existingAttachments - referenced rs then None else files s p)"
proof -
  have "set (filesToDelete existingAttachments (allFiles rs)) =
          (set existingAttachments - {[]}) - {file. Some file \<in> set (allFiles rs)}"
    by (rule set_filesToDelete)
  also have "\<dots> = set existingAttachments - referenced rs"
    using assms by (auto simp: allFiles_referenced)
  finally have del: "set (filesToDelete existingAttachments (allFiles rs)) =
      set existingAttachments - referenced rs" .
  then show ?thesis
    by (simp add: files_remove_each)
qed

theorem reconciler_deletes_difference_witness:
  "set (filesToDelete [''A.png'', ''B.png'', ''C.png''] (allFiles [ac_record])) = {''B.png''} \<and>
   files (remove_each (filesToDelete [''A.png'', ''B.png'', ''C.png''] (allFiles [ac_record]))
      (disk [(''A.png'', File ''a''), (''B.png'', File ''b''), (''C.png'', File ''c'')])) =
     [''A.png'' \<mapsto> File ''a'', ''C.png'' \<mapsto> File ''c'']"
proof -
  have listing: "[] \<notin> set [''A.png'', ''B.png'', ''C.png'']"
    by simp
  have ref: "referenced [ac_record] = {''A.png'', ''C.png''}"
    by (auto simp: referenced_def ac_record_def)
  have diff: "set [''A.png'', ''B.png'', ''C.png''] - referenced [ac_record] = {''B.png''}"
    unfolding ref by auto
  from reconciler_deletes_difference [OF listing, of "[ac_record]"
      "disk [(''A.png'', File ''a''), (''B.png'', File ''b''), (''C.png'', File ''c'')]"]
  show ?thesis
    unfolding diff by (auto simp: disk_def fun_eq_iff)
qed

text \<open>
  C4. In \<open>dump-airtable.ts\<close> the paths that the records refer to lie under
  \<open>attachments/\<close> and the listed paths under \<open>public/themes/attachments/\<close>. In a run
  that completes, no referenced path is a listed path, the files to delete are the
  whole listing, and no listed path is left on disk at the end, whatever the records
  refer to.
\<close>

theorem dump_airtable_deletes_listing:
  assumes run: "dump_airtable e records existingAttachments s = Inr s'"
    and glob: "\<forall>p\<in>set existingAttachments. prefix ''public/themes/attachments/'' p"
  shows "\<exists>rs s4.
           sync_records ''attachments/'' ''airtable.json'' e records existingAttachments s
             = Inr (rs, s4) \<and>
           referenced rs \<inter> set existingAttachments = {} \<and>
           filesToDelete existingAttachments (allFiles rs) = existingAttachments \<and>
           (\<forall>p\<in>set existingAttachments. files s' p = None)"
proof -
  from run obtain rs s4 where
    sync: "sync_records ''attachments/'' ''airtable.json'' e records existingAttachments s
             = Inr (rs, s4)" and
    s': "s' = mapLimit_downloadArchive e (uniq (compact (map archiveFilename rs))) s4"
    by (auto simp: dump_airtable_def split: sum.splits)
  let ?ns = "normalizedRecords records"
  from sync_records_Inr(1) [OF sync]
  have rs: "rs = normalizedRecordsWithFilePaths (descriptors ''attachments/'' ?ns) ?ns" .
  have apart: "p \<noteq> q" if "p \<in> referenced rs" and "q \<in> set existingAttachments" for p q
  proof -
    from that(1) have "prefix ''attachments/'' p"
      unfolding rs by (rule referenced_prefix)
    moreover from that(2) glob have "prefix ''public/themes/attachments/'' q"
      by blast
    ultimately show ?thesis
      by (rule dirs_apart)
  qed
  then have disjoint: "referenced rs \<inter> set existingAttachments = {}"
    by blast
  have "\<forall>file\<in>set existingAttachments. file \<noteq> [] \<and> Some file \<notin> set (allFiles rs)"
    using glob apart by (auto simp: allFiles_referenced dest: not_archive_path(4))
  then have all: "filesToDelete existingAttachments (allFiles rs) = existingAttachments"
    by (rule filesToDelete_all)
  have gone: "files s' p = None" if p: "p \<in> set existingAttachments" for p
  proof -
    from p glob have pub: "prefix ''public/themes/attachments/'' p"
      by blast
    from sync_records_Inr(2) [OF sync] obtain s2 where
      "s4 = writeFile ''airtable.json'' (stringify e rs)
              (remove_each (filesToDelete existingAttachments (allFiles rs)) s2)"
      by blast
    with p all not_archive_path(3) [OF pub] have "files s4 p = None"
      by (simp add: files_remove_each)
    moreover have "files s' p = files s4 p"
      unfolding s' using not_archive_path(1,2) [OF pub]
      by (intro mapLimit_downloadArchive_files_other) blast
    ultimately show ?thesis
      by simp
  qed
  from sync disjoint all gone show ?thesis
    by blast
qed

theorem dump_airtable_deletes_listing_witness:
  "filesToDelete listing
     (allFiles (fst (projr (sync_records ''attachments/'' ''airtable.json'' server [theme]
        listing stale)))) = listing \<and>
   files stale ''public/themes/attachments/about-rec123-foo.png'' = Some (File ''old'') \<and>
   files (projr (dump_airtable server [theme] listing stale))
     ''public/themes/attachments/about-rec123-foo.png'' = None"
proof -
  let ?run = "dump_airtable server [theme] listing stale"
  have "\<not> isl ?run"
    by code_simp
  then have run: "?run = Inr (projr ?run)"
    by (cases ?run) simp_all
  have glob: "\<forall>p\<in>set listing. prefix ''public/themes/attachments/'' p"
    by (simp add: listing_def)
  from dump_airtable_deletes_listing [OF run glob] obtain rs s4 where
    sync: "sync_records ''attachments/'' ''airtable.json'' server [theme] listing stale
             = Inr (rs, s4)" and
    all: "filesToDelete listing (allFiles rs) = listing" and
    gone: "\<forall>p\<in>set listing. files (projr ?run) p = None"
    by blast
  from sync all have "filesToDelete listing
     (allFiles (fst (projr (sync_records ''attachments/'' ''airtable.json'' server [theme]
        listing stale)))) = listing"
    by simp
  moreover have "files stale ''public/themes/attachments/about-rec123-foo.png'' = Some (File ''old'')"
    by (simp add: stale_def disk_def)
  moreover from gone have "files (projr ?run)
     ''public/themes/attachments/about-rec123-foo.png'' = None"
    by (simp add: listing_def)
  ultimately show ?thesis
    by blast
qed

text \<open>
  C5. The resolved \<open>archiveFilename\<close> is the filename of the archive file when the
  record has one and it ends in \<open>.sit\<close>; otherwise it is \<open>archiveFileName2\<close>; it is
  absent when neither qualifies, the fallback qualifying when it is defined and not the
  empty string. The two examples of the specification are the last two
  conjuncts.
\<close>

theorem archiveFilename_derivation:
  "archiveFilename (resolve filePaths r) =
     (case archiveFile r of
        Some a \<Rightarrow>
          if endsWith (a_filename a) ''.sit'' then Some (a_filename a)
          else if nonempty (archiveFileName2 r) then archiveFileName2 r else None
      | None \<Rightarrow> if nonempty (archiveFileName2 r) then archiveFileName2 r else None) \<and>
   archiveFilename (resolve filePaths (normalizeRecord theme)) = Some ''Theme.sit'' \<and>
   archiveFilename (resolve filePaths (normalizeRecord zipped)) = Some ''theme-v2.zip''"
proof (intro conjI)
  have fallback: "or_undefined v = (if nonempty v then v else None)" for v
    by (cases v) (simp_all add: or_undefined_def truthy_def nonempty_def)
  show "archiveFilename (resolve filePaths r) =
     (case archiveFile r of
        Some a \<Rightarrow>
          if endsWith (a_filename a) ''.sit'' then Some (a_filename a)
          else if nonempty (archiveFileName2 r) then archiveFileName2 r else None
      | None \<Rightarrow> if nonempty (archiveFileName2 r) then archiveFileName2 r else None)"
    by (simp add: resolve_def archiveName_cases fallback split: option.splits)
  show "archiveFilename (resolve filePaths (normalizeRecord theme)) = Some ''Theme.sit''"
    by (simp add: resolve_def archiveName_cases normalizeRecord_def theme_def first_opt_def
        theme_sit_def endsWith_def)
  show "archiveFilename (resolve filePaths (normalizeRecord zipped)) = Some ''theme-v2.zip''"
    by (simp add: resolve_def archiveName_cases normalizeRecord_def zipped_def theme_def first_opt_def
        theme_zip_def endsWith_def or_undefined_def truthy_def)
qed

theorem archiveFilename_derivation_witness:
  "archiveFilename (resolve [] (normalizeRecord blank)) = None \<and>
   archiveFilename (resolve [] (normalizeRecord theme)) = Some ''Theme.sit''"
proof -
  have "archiveFile (normalizeRecord blank) = None" and "archiveFileName2 (normalizeRecord blank) = None"
    by (simp_all add: normalizeRecord_def blank_def first_opt_def)
  with archiveFilename_derivation [of "[]" "normalizeRecord blank"]
  show ?thesis
    by (simp add: nonempty_def)
qed

text \<open>
  C6. In a mirror operation whose manifest request is answered: when the local copy is
  a file whose digest is the checksum of the manifest, the manifest request is the only
  request made and no file changes; when there is no local copy, or its digest differs,
  and the request for the archive is answered, the answer is written to the local path
  and the manifest text next to it, and nothing else changes. The content is the body
  of the answer, whatever its status.
\<close>

theorem downloadArchive_checksum:
  assumes "fetch e (archive_url a @ ''.md5'') = Some m"
  shows "(files s (archive_path a) = Some (File c) \<and> md5 e c = md5Remote (body m) \<longrightarrow>
            files (downloadArchive e a s) = files s \<and>
            fetched (downloadArchive e a s) = fetched s @ [Manifest_fetch (archive_url a @ ''.md5'')] \<and>
            console (downloadArchive e a s) = console s @ [Info_skipped a]) \<and>
         ((files s (archive_path a) = None \<or>
           files s (archive_path a) = Some (File c) \<and> md5 e c \<noteq> md5Remote (body m)) \<and>
          fetch e (archive_url a) = Some r \<longrightarrow>
            files (downloadArchive e a s) =
              (files s)(archive_path a \<mapsto> File (body r), archive_path a @ ''.md5'' \<mapsto> File (body m)) \<and>
            fetched (downloadArchive e a s) =
              fetched s @ [Manifest_fetch (archive_url a @ ''.md5''), Archive_fetch (archive_url a)] \<and>
            console (downloadArchive e a s) = console s @ [Info_downloaded a])"
proof (intro conjI impI)
  assume "files s (archive_path a) = Some (File c) \<and> md5 e c = md5Remote (body m)"
  with assms have skip: "downloadArchive e a s =
      console_log (Info_skipped a) (request (Manifest_fetch (archive_url a @ ''.md5'')) s)"
    by (simp add: downloadArchive_skip)
  show "files (downloadArchive e a s) = files s"
    and "fetched (downloadArchive e a s) = fetched s @ [Manifest_fetch (archive_url a @ ''.md5'')]"
    and "console (downloadArchive e a s) = console s @ [Info_skipped a]"
    unfolding skip by simp_all
next
  assume "(files s (archive_path a) = None \<or>
           files s (archive_path a) = Some (File c) \<and> md5 e c \<noteq> md5Remote (body m)) \<and>
          fetch e (archive_url a) = Some r"
  with assms have download: "downloadArchive e a s =
      console_log (Info_downloaded a)
        (writeFile (archive_path a @ ''.md5'') (body m)
          (writeFile (archive_path a) (body r)
            (request (Archive_fetch (archive_url a))
              (request (Manifest_fetch (archive_url a @ ''.md5'')) s))))"
    by (intro downloadArchive_download) auto
  show "files (downloadArchive e a s) =
      (files s)(archive_path a \<mapsto> File (body r), archive_path a @ ''.md5'' \<mapsto> File (body m))"
    and "fetched (downloadArchive e a s) =
      fetched s @ [Manifest_fetch (archive_url a @ ''.md5''), Archive_fetch (archive_url a)]"
    and "console (downloadArchive e a s) = console s @ [Info_downloaded a]"
    unfolding download by simp_all
qed

theorem downloadArchive_checksum_witness:
  "files (downloadArchive server ''Theme.sit'' (disk [(''archives/Theme.sit'', File ''0cc1'')])) =
     files (disk [(''archives/Theme.sit'', File ''0cc1'')]) \<and>
   fetched (downloadArchive server ''Theme.sit'' (disk [(''archives/Theme.sit'', File ''0cc1'')])) =
     [Manifest_fetch ''https://files.macthemes.garden/Theme.sit.md5''] \<and>
   files (downloadArchive server ''Theme.sit'' (disk [(''archives/Theme.sit'', File ''old'')])) =
     [''archives/Theme.sit'' \<mapsto> File ''0cc1'', ''archives/Theme.sit.md5'' \<mapsto> File ''0cc1  Theme.sit''] \<and>
   files (downloadArchive server ''Theme.sit'' (disk [])) =
     [''archives/Theme.sit'' \<mapsto> File ''0cc1'', ''archives/Theme.sit.md5'' \<mapsto> File ''0cc1  Theme.sit'']"
proof -
  have manifest: "fetch server (archive_url ''Theme.sit'' @ ''.md5'') = Some (ok ''0cc1  Theme.sit'')"
    and archive: "fetch server (archive_url ''Theme.sit'') = Some (ok ''0cc1'')"
    by (simp_all add: server_def archive_url_def)
  have bodies: "body (ok ''0cc1  Theme.sit'') = ''0cc1  Theme.sit''" "body (ok ''0cc1'') = ''0cc1''"
    by (simp_all add: ok_def)
  have remote: "md5Remote ''0cc1  Theme.sit'' = ''0cc1''"
    by (simp add: md5Remote_def trim_def split_space_first_def is_space_def)
  have digest: "md5 server c = c" for c
    by (simp add: server_def)
  have path: "archive_path ''Theme.sit'' = ''archives/Theme.sit''"
    and url: "archive_url ''Theme.sit'' = ''https://files.macthemes.garden/Theme.sit''"
    by (simp_all add: archive_path_def archive_url_def)
  note claim = downloadArchive_checksum [OF manifest, where r = "ok ''0cc1''", unfolded bodies]
  have same: "files (disk [(''archives/Theme.sit'', File ''0cc1'')]) (archive_path ''Theme.sit'')
      = Some (File ''0cc1'') \<and> md5 server ''0cc1'' = md5Remote ''0cc1  Theme.sit''"
    by (simp add: disk_def path remote digest)
  have differs: "(files (disk [(''archives/Theme.sit'', File ''old'')]) (archive_path ''Theme.sit'') = None \<or>
      files (disk [(''archives/Theme.sit'', File ''old'')]) (archive_path ''Theme.sit'')
        = Some (File ''old'') \<and> md5 server ''old'' \<noteq> md5Remote ''0cc1  Theme.sit'') \<and>
      fetch server (archive_url ''Theme.sit'') = Some (ok ''0cc1'')"
    by (simp add: disk_def path remote digest archive)
  have absent: "(files (disk []) (archive_path ''Theme.sit'') = None \<or>
      files (disk []) (archive_path ''Theme.sit'') = Some (File ''old'') \<and>
        md5 server ''old'' \<noteq> md5Remote ''0cc1  Theme.sit'') \<and>
      fetch server (archive_url ''Theme.sit'') = Some (ok ''0cc1'')"
    by (simp add: disk_def archive)
  from claim [THEN conjunct1, THEN mp, OF same]
       claim [THEN conjunct2, THEN mp, OF differs]
       claim [THEN conjunct2, THEN mp, OF absent]
  show ?thesis
    by (auto simp: disk_def path url fun_eq_iff)
qed

text \<open>
  C7 (amended). What the \<open>try\<close> block of a mirror operation throws is caught: the
  operation returns, no file has changed, and the console has the line with the archive name and
  the error. A request that rejects and a local copy that cannot be read are such
  failures. The operations of the other archives go on: the snapshot is as it was
  written, the run ends without an error, and an archive whose requests are answered,
  that has no local copy yet and whose path is not the manifest path of another archive
  of the list, has its copy at the end, whatever happens to the others.
\<close>

theorem archive_failure_isolated:
  "(downloadArchive_try e a s = Inl (err, s') \<longrightarrow>
      files (downloadArchive e a s) = files s \<and>
      console (downloadArchive e a s) =
        console s @ [Error_could_not_download a, Error_detail err]) \<and>
   (fetch e (archive_url a @ ''.md5'') = None \<longrightarrow>
      (\<exists>u. downloadArchive_try e a s = Inl (FetchFailed (archive_url a @ ''.md5''), u))) \<and>
   (fetch e (archive_url a @ ''.md5'') \<noteq> None \<and> files s (archive_path a) = Some Unreadable \<longrightarrow>
      (\<exists>u. downloadArchive_try e a s = Inl (ReadFailed (archive_path a), u))) \<and>
   (fetch e (archive_url a @ ''.md5'') \<noteq> None \<and> files s (archive_path a) = None \<and>
    fetch e (archive_url a) = None \<longrightarrow>
      (\<exists>u. downloadArchive_try e a s = Inl (FetchFailed (archive_url a), u))) \<and>
   files (mapLimit_downloadArchive e archives s) ''airtable.json'' = files s ''airtable.json'' \<and>
   (sync_records ''attachments/'' ''airtable.json'' e records existingAttachments t = Inr (rs, t') \<longrightarrow>
      (\<exists>u. dump_airtable e records existingAttachments t = Inr u \<and>
            files u ''airtable.json'' = Some (File (stringify e rs)))) \<and>
   (b \<in> set archives \<and> files s (archive_path b) = None \<and>
    fetch e (archive_url b @ ''.md5'') = Some m \<and> fetch e (archive_url b) = Some r \<and>
    (\<forall>c\<in>set archives. c @ ''.md5'' \<noteq> b) \<longrightarrow>
      files (mapLimit_downloadArchive e archives s) (archive_path b) = Some (File (body r)))"
proof (intro conjI impI)
  assume "downloadArchive_try e a s = Inl (err, s')"
  then show "files (downloadArchive e a s) = files s"
    and "console (downloadArchive e a s) =
        console s @ [Error_could_not_download a, Error_detail err]"
    by (rule downloadArchive_caught)+
next
  assume "fetch e (archive_url a @ ''.md5'') = None"
  then show "\<exists>u. downloadArchive_try e a s = Inl (FetchFailed (archive_url a @ ''.md5''), u)"
    by (simp add: downloadArchive_try_throws(1))
next
  assume "fetch e (archive_url a @ ''.md5'') \<noteq> None \<and> files s (archive_path a) = Some Unreadable"
  then show "\<exists>u. downloadArchive_try e a s = Inl (ReadFailed (archive_path a), u)"
    by (auto simp: downloadArchive_try_throws(2))
next
  assume "fetch e (archive_url a @ ''.md5'') \<noteq> None \<and> files s (archive_path a) = None \<and>
    fetch e (archive_url a) = None"
  then show "\<exists>u. downloadArchive_try e a s = Inl (FetchFailed (archive_url a), u)"
    by (auto simp: downloadArchive_try_throws(3))
next
  show snapshot: "files (mapLimit_downloadArchive e archives s) ''airtable.json'' =
      files s ''airtable.json''" for archives s
    by (rule mapLimit_downloadArchive_files_other) (simp add: snapshot_not_archive)
  { assume sync: "sync_records ''attachments/'' ''airtable.json'' e records existingAttachments t
        = Inr (rs, t')"
    then have "dump_airtable e records existingAttachments t =
        Inr (mapLimit_downloadArchive e (uniq (compact (map archiveFilename rs))) t')"
      by (simp add: dump_airtable_def)
    moreover from sync have "files t' ''airtable.json'' = Some (File (stringify e rs))"
      by (rule sync_records_snapshot)
    ultimately show "\<exists>u. dump_airtable e records existingAttachments t = Inr u \<and>
        files u ''airtable.json'' = Some (File (stringify e rs))"
      by (simp add: snapshot) }
next
  assume "b \<in> set archives \<and> files s (archive_path b) = None \<and>
    fetch e (archive_url b @ ''.md5'') = Some m \<and> fetch e (archive_url b) = Some r \<and>
    (\<forall>c\<in>set archives. c @ ''.md5'' \<noteq> b)"
  then show "files (mapLimit_downloadArchive e archives s) (archive_path b) = Some (File (body r))"
    by (intro mapLimit_mirrors [where m = m]) simp_all
qed

theorem archive_failure_isolated_witness:
  "console (downloadArchive server ''Broken.sit'' (disk [])) =
     [Error_could_not_download ''Broken.sit'',
      Error_detail (FetchFailed ''https://files.macthemes.garden/Broken.sit.md5'')] \<and>
   files (downloadArchive server ''Broken.sit'' (disk [])) = files (disk []) \<and>
   (\<exists>u. downloadArchive_try server ''Theme.sit'' (disk [(''archives/Theme.sit'', Unreadable)]) =
      Inl (ReadFailed ''archives/Theme.sit'', u)) \<and>
   (\<exists>u. downloadArchive_try server ''Lost.sit'' (disk []) =
      Inl (FetchFailed ''https://files.macthemes.garden/Lost.sit'', u)) \<and>
   files (mapLimit_downloadArchive server [''Broken.sit'', ''Lost.sit'', ''Theme.sit''] (disk []))
     ''archives/Theme.sit'' = Some (File ''0cc1'') \<and>
   files (projr (dump_airtable server [theme] listing stale)) ''airtable.json'' = Some (File ''Aqua'')"
proof -
  let ?sync = "sync_records ''attachments/'' ''airtable.json'' server [theme] listing stale"
  let ?archives = "[''Broken.sit'', ''Lost.sit'', ''Theme.sit'']"
  have broken: "fetch server (archive_url ''Broken.sit'' @ ''.md5'') = None"
    by (simp add: server_def archive_url_def)
  from archive_failure_isolated [where e = server and a = "''Broken.sit''" and s = "disk []",
      THEN conjunct2, THEN conjunct1, THEN mp, OF broken]
  obtain u where thrown: "downloadArchive_try server ''Broken.sit'' (disk []) =
      Inl (FetchFailed (archive_url ''Broken.sit'' @ ''.md5''), u)"
    by blast
  from archive_failure_isolated [where e = server and a = "''Broken.sit''" and s = "disk []",
      THEN conjunct1, THEN mp, OF thrown]
  have caught: "console (downloadArchive server ''Broken.sit'' (disk [])) =
      [Error_could_not_download ''Broken.sit'',
       Error_detail (FetchFailed ''https://files.macthemes.garden/Broken.sit.md5'')]"
    and untouched: "files (downloadArchive server ''Broken.sit'' (disk [])) = files (disk [])"
    by (simp_all add: disk_def archive_url_def)
  have locked: "fetch server (archive_url ''Theme.sit'' @ ''.md5'') \<noteq> None \<and>
      files (disk [(''archives/Theme.sit'', Unreadable)]) (archive_path ''Theme.sit'') = Some Unreadable"
    by (simp add: server_def archive_url_def archive_path_def disk_def)
  from archive_failure_isolated [where e = server and a = "''Theme.sit''"
      and s = "disk [(''archives/Theme.sit'', Unreadable)]",
      THEN conjunct2, THEN conjunct2, THEN conjunct1, THEN mp, OF locked]
  have unreadable: "\<exists>u. downloadArchive_try server ''Theme.sit''
      (disk [(''archives/Theme.sit'', Unreadable)]) = Inl (ReadFailed ''archives/Theme.sit'', u)"
    by (simp add: archive_path_def)
  have lost: "fetch server (archive_url ''Lost.sit'' @ ''.md5'') \<noteq> None \<and>
      files (disk []) (archive_path ''Lost.sit'') = None \<and>
      fetch server (archive_url ''Lost.sit'') = None"
    by (simp add: server_def archive_url_def disk_def)
  from archive_failure_isolated [where e = server and a = "''Lost.sit''" and s = "disk []",
      THEN conjunct2, THEN conjunct2, THEN conjunct2, THEN conjunct1, THEN mp, OF lost]
  have rejected: "\<exists>u. downloadArchive_try server ''Lost.sit'' (disk []) =
      Inl (FetchFailed ''https://files.macthemes.garden/Lost.sit'', u)"
    by (simp add: archive_url_def)
  have sibling: "''Theme.sit'' \<in> set ?archives \<and>
      files (disk []) (archive_path ''Theme.sit'') = None \<and>
      fetch server (archive_url ''Theme.sit'' @ ''.md5'') = Some (ok ''0cc1  Theme.sit'') \<and>
      fetch server (archive_url ''Theme.sit'') = Some (ok ''0cc1'') \<and>
      (\<forall>c\<in>set ?archives. c @ ''.md5'' \<noteq> ''Theme.sit'')"
    by (simp add: disk_def server_def archive_url_def)
  from archive_failure_isolated [where e = server and s = "disk []" and archives = ?archives
      and b = "''Theme.sit''" and m = "ok ''0cc1  Theme.sit''" and r = "ok ''0cc1''",
      THEN conjunct2, THEN conjunct2, THEN conjunct2, THEN conjunct2, THEN conjunct2,
      THEN conjunct2, THEN mp, OF sibling]
  have mirrored: "files (mapLimit_downloadArchive server ?archives (disk []))
      ''archives/Theme.sit'' = Some (File ''0cc1'')"
    by (simp add: archive_path_def ok_def)
  have "\<not> isl ?sync"
    by code_simp
  then have sync: "?sync = Inr (fst (projr ?sync), snd (projr ?sync))"
    by (cases ?sync) simp_all
  have content: "stringify server (fst (projr ?sync)) = ''Aqua''"
    by code_simp
  from archive_failure_isolated [where e = server and records = "[theme]"
      and existingAttachments = listing and t = stale and rs = "fst (projr ?sync)"
      and t' = "snd (projr ?sync)",
      THEN conjunct2, THEN conjunct2, THEN conjunct2, THEN conjunct2, THEN conjunct2,
      THEN conjunct1, THEN mp, OF sync]
  have snapshot: "files (projr (dump_airtable server [theme] listing stale)) ''airtable.json''
      = Some (File ''Aqua'')"
    unfolding content by auto
  from caught untouched unreadable rejected mirrored snapshot show ?thesis
    by blast
qed

text \<open>
  A manifest that the server answers with status 404: nothing is thrown, the console has
  the line of a download and no error line, and the body of the answer is the manifest
  on disk.
\<close>

theorem missing_manifest_counterexample:
  "map_option status (fetch no_manifest (archive_url ''Theme.sit'' @ ''.md5'')) = Some 404 \<and>
   console (downloadArchive no_manifest ''Theme.sit'' (disk [])) = [Info_downloaded ''Theme.sit''] \<and>
   files (downloadArchive no_manifest ''Theme.sit'' (disk [])) ''archives/Theme.sit.md5''
     = Some (File ''Not Found'') \<and>
   files (downloadArchive no_manifest ''Theme.sit'' (disk [])) ''archives/Theme.sit''
     = Some (File ''0cc1'')"
  by (simp add: downloadArchive_def downloadArchive_try_def Let_def archive_url_def archive_path_def
      no_manifest_def not_found_def ok_def disk_def fs_exists_def)








end
